theory Spec2Isabelle
  imports Main "HOL-Library.Sublist"
begin

section \<open>Data model\<close>

text \<open>
  The converter of \<^verbatim>\<open>src/utils/convertJsonNodes.ts\<close> walks a tree of content nodes and
  produces Markdown text. JavaScript strings are modelled as \<^typ>\<open>string\<close>; the code only
  concatenates and compares them, so the character encoding plays no role.

  The numeric fields \<^verbatim>\<open>depth\<close>, \<^verbatim>\<open>itemIndex\<close> and \<^verbatim>\<open>level\<close> are a nesting depth, an
  array position and a number of hash marks, and are modelled as \<^typ>\<open>nat\<close>. Negative
  and fractional numbers, on which \<^verbatim>\<open>String.prototype.repeat\<close> throws or truncates, and
  strings too long for the engine are outside the model.
\<close>

datatype ListType = bullet | ordered

text \<open>
  \<^verbatim>\<open>interface ConvertContext { depth: number; listType?: "bullet" | "ordered"; itemIndex?: number }\<close>
\<close>

record ConvertContext =
  depth :: nat
  listType :: "ListType option"
  itemIndex :: "nat option"

text \<open>
  Modelled from the spec: the declarations of \<^verbatim>\<open>ContentNode\<close> and \<^verbatim>\<open>DocumentStructure\<close>
  are imported from \<^verbatim>\<open>./types\<close>, which is not among the sources. The spec gives a node as
  \<^verbatim>\<open>{type: string, content?: ContentNode[], attrs?: {level?: number}, text?: string}\<close>,
  with \<^verbatim>\<open>level\<close> a positive integer. An optional field that is absent is \<^const>\<open>None\<close>.
\<close>

record Attrs =
  level :: "nat option"

datatype ContentNode = ContentNode
  (type: string)
  (content: "ContentNode list option")
  (attrs: "Attrs option")
  (text_field: "string option")

text \<open>
  Modelled from the spec: \<^verbatim>\<open>DocumentStructure\<close> (also from the missing \<^verbatim>\<open>./types\<close>) is the
  top-level object. The code reads its \<^verbatim>\<open>type\<close> and \<^verbatim>\<open>attachments\<close> fields and, when the
  type is \<^verbatim>\<open>doc\<close>, casts the object itself to a node, so the object carries the node's
  fields beside \<^verbatim>\<open>attachments\<close>. Every field may be absent; \<^verbatim>\<open>attachments\<close> is
  \<^const>\<open>None\<close> when the field is absent or is not an array. An attachment carries a
  \<^verbatim>\<open>content\<close> string.
\<close>

record Attachment =
  attachment_content :: string

record DocumentStructure =
  ds_type :: "string option"
  ds_content :: "ContentNode list option"
  ds_attrs :: "Attrs option"
  ds_text :: "string option"
  attachments :: "Attachment list option"

text \<open>
  The only failure of the converter is the exception of \<^verbatim>\<open>JSON.parse\<close>.
\<close>

datatype error = SyntaxError

section \<open>Library functions of the host language\<close>

text \<open>\<^verbatim>\<open>String.prototype.repeat\<close> on a non-negative count.\<close>

fun repeat :: "string \<Rightarrow> nat \<Rightarrow> string" where
  "repeat s 0 = []"
| "repeat s (Suc n) = s @ repeat s n"

text \<open>\<^verbatim>\<open>Array.prototype.join\<close> on an array of strings.\<close>

fun join :: "string \<Rightarrow> string list \<Rightarrow> string" where
  "join sep [] = []"
| "join sep [x] = x"
| "join sep (x # y # ys) = x @ sep @ join sep (y # ys)"

text \<open>
  The decimal numeral a template literal prints for a non-negative integer (an array
  position plus one, in the source).
\<close>

definition digit_char :: "nat \<Rightarrow> char" where
  "digit_char d = ''0123456789'' ! d"

function number_toString :: "nat \<Rightarrow> string" where
  "number_toString n =
     (if n < 10 then [digit_char n]
      else number_toString (n div 10) @ [digit_char (n mod 10)])"
  by pat_completeness auto
termination
  by (relation "measure (\<lambda>n. n)") auto

declare number_toString.simps [simp del]

text \<open>
  The string is the decimal numeral of \<open>n\<close>: its characters are digits, it has no
  leading zero unless \<open>n\<close> is 0, and its value in base 10 is \<open>n\<close>.
\<close>

definition digit_value :: "char \<Rightarrow> nat" where
  "digit_value ch = of_char ch - 48"

definition decimal_value :: "string \<Rightarrow> nat" where
  "decimal_value s = foldl (\<lambda>v ch. 10 * v + digit_value ch) 0 s"

lemma digit_char_cases:
  "d < 10 \<Longrightarrow> d = 0 \<or> d = 1 \<or> d = 2 \<or> d = 3 \<or> d = 4 \<or> d = 5 \<or> d = 6 \<or> d = 7 \<or> d = 8 \<or> d = (9::nat)"
  by arith

lemma digit_value_digit_char: "d < 10 \<Longrightarrow> digit_value (digit_char d) = d"
  by (drule digit_char_cases) (auto simp: digit_value_def digit_char_def)

lemma digit_char_is_digit: "d < 10 \<Longrightarrow> digit_char d \<in> set ''0123456789''"
  by (drule digit_char_cases) (auto simp: digit_char_def)

lemma decimal_value_snoc: "decimal_value (s @ [ch]) = 10 * decimal_value s + digit_value ch"
  by (simp add: decimal_value_def)

lemma number_toString_value: "decimal_value (number_toString n) = n"
proof (induction n rule: number_toString.induct)
  case (1 n)
  show ?case
  proof (cases "n < 10")
    case True
    then show ?thesis
      by (subst number_toString.simps) (simp add: decimal_value_def digit_value_digit_char)
  next
    case False
    with 1 have "decimal_value (number_toString (n div 10)) = n div 10"
      by simp
    with False show ?thesis
      by (subst number_toString.simps) (simp add: decimal_value_snoc digit_value_digit_char)
  qed
qed

lemma number_toString_digits: "set (number_toString n) \<subseteq> set ''0123456789''"
proof (induction n rule: number_toString.induct)
  case (1 n)
  show ?case
  proof (cases "n < 10")
    case True
    with digit_char_is_digit [of n] show ?thesis
      by (subst number_toString.simps) simp
  next
    case False
    with 1 have "set (number_toString (n div 10)) \<subseteq> set ''0123456789''"
      by simp
    with False digit_char_is_digit [of "n mod 10"] show ?thesis
      by (subst number_toString.simps) simp
  qed
qed

lemma number_toString_no_leading_zero: "0 < n \<Longrightarrow> hd (number_toString n) \<noteq> CHR ''0''"
proof (induction n rule: number_toString.induct)
  case (1 n)
  show ?case
  proof (cases "n < 10")
    case True
    with 1(2) digit_char_cases [of n] show ?thesis
      by (subst number_toString.simps) (auto simp: digit_char_def)
  next
    case False
    then have "0 < n div 10" by simp
    with 1(1) False have "hd (number_toString (n div 10)) \<noteq> CHR ''0''"
      by simp
    moreover have "number_toString (n div 10) \<noteq> []"
      by (subst number_toString.simps) simp
    ultimately show ?thesis
      using False by (subst number_toString.simps) simp
  qed
qed

section \<open>The node renderer\<close>

text \<open>
  The default value of the parameter \<^verbatim>\<open>ctx\<close>: \<^verbatim>\<open>{ depth: 0 }\<close>.
\<close>

definition default_ctx :: ConvertContext where
  "default_ctx = \<lparr>depth = 0, listType = None, itemIndex = None\<rparr>"

lemma size_child:
  "content node = Some cs \<Longrightarrow> n \<in> set cs \<Longrightarrow> size n < size node"
proof (cases node)
  case (ContentNode t c a x)
  assume "content node = Some cs" and "n \<in> set cs"
  then have "size n \<le> size_list size cs"
    by (simp add: size_list_estimation')
  with ContentNode \<open>content node = Some cs\<close> show ?thesis
    by simp
qed

lemma size_enumerated_child:
  "content node = Some cs \<Longrightarrow> (i, n) \<in> set (enumerate k cs) \<Longrightarrow> size n < size node"
  by (auto simp: in_set_enumerate_eq intro: size_child)

text \<open>
  \<^verbatim>\<open>convertNodeToMarkdown(node, ctx)\<close>. The first argument is \<^const>\<open>None\<close> for a falsy
  value (\<^verbatim>\<open>null\<close>, \<^verbatim>\<open>undefined\<close>), which the guard \<^verbatim>\<open>if (!node) return ""\<close> answers.
  The \<^verbatim>\<open>switch\<close> on \<^verbatim>\<open>node.type\<close> is the chain of comparisons below, in the order of
  the source; \<^verbatim>\<open>items.map((item, i) => ...)\<close> is a map over the enumerated items, and the
  \<^verbatim>\<open>for\<close> loop of \<^verbatim>\<open>listItem\<close> that pushes onto \<^verbatim>\<open>childContent\<close> is a left fold.
\<close>

function convertNodeToMarkdown :: "ContentNode option \<Rightarrow> ConvertContext \<Rightarrow> string" where
  "convertNodeToMarkdown None ctx = ''''"
| "convertNodeToMarkdown (Some node) ctx =
    (let indent = repeat ''  '' (depth ctx) in
     if type node = ''doc'' then
       (case content node of
          Some cs \<Rightarrow> join '''' (map (\<lambda>n. convertNodeToMarkdown (Some n) ctx) cs)
        | None \<Rightarrow> '''')
     else if type node = ''paragraph'' then
       (let text =
          (case content node of
             Some cs \<Rightarrow> join '''' (map (\<lambda>n. convertNodeToMarkdown (Some n) ctx) cs)
           | None \<Rightarrow> '''')
        in if listType ctx \<noteq> None then text else text @ ''\<newline>\<newline>'')
     else if type node = ''heading'' then
       (let level =
          (case attrs node of
             None \<Rightarrow> 1
           | Some a \<Rightarrow> (case level a of None \<Rightarrow> 1 | Some l \<Rightarrow> if l = 0 then 1 else l));
            text =
          (case content node of
             Some cs \<Rightarrow> join '''' (map (\<lambda>n. convertNodeToMarkdown (Some n) ctx) cs)
           | None \<Rightarrow> '''')
        in repeat ''#'' level @ '' '' @ text @ ''\<newline>\<newline>'')
     else if type node = ''bulletList'' then
       (let result =
          (case content node of
             Some items \<Rightarrow>
               join '''' (map (\<lambda>(i, item). convertNodeToMarkdown (Some item)
                   \<lparr>depth = depth ctx, listType = Some bullet, itemIndex = Some i\<rparr>)
                 (enumerate 0 items))
           | None \<Rightarrow> join '''' [])
        in if depth ctx = 0 then result @ ''\<newline>'' else result)
     else if type node = ''orderedList'' then
       (let result =
          (case content node of
             Some items \<Rightarrow>
               join '''' (map (\<lambda>(i, item). convertNodeToMarkdown (Some item)
                   \<lparr>depth = depth ctx, listType = Some ordered, itemIndex = Some i\<rparr>)
                 (enumerate 0 items))
           | None \<Rightarrow> join '''' [])
        in if depth ctx = 0 then result @ ''\<newline>'' else result)
     else if type node = ''listItem'' then
       (let prefix =
          (if listType ctx = Some ordered
           then number_toString ((case itemIndex ctx of None \<Rightarrow> 0 | Some i \<Rightarrow> i) + 1) @ ''. ''
           else ''- '');
            childContent =
          (case content node of
             Some cs \<Rightarrow>
               foldl (\<lambda>childContent child.
                   if type child = ''bulletList'' \<or> type child = ''orderedList''
                   then childContent @
                     [''\<newline>'' @ convertNodeToMarkdown (Some child)
                        \<lparr>depth = depth ctx + 1,
                         listType = Some (if type child = ''orderedList'' then ordered else bullet),
                         itemIndex = None\<rparr>]
                   else childContent @ [convertNodeToMarkdown (Some child) ctx])
                 [] cs
           | None \<Rightarrow> [])
        in indent @ prefix @ join '''' childContent @ ''\<newline>'')
     else if type node = ''text'' then
       (case text_field node of Some t \<Rightarrow> t | None \<Rightarrow> '''')
     else if type node = ''horizontalRule'' then ''---\<newline>\<newline>''
     else '''')"
  by pat_completeness auto
termination
  by (relation "measure (\<lambda>(n, ctx). case n of None \<Rightarrow> 0 | Some node \<Rightarrow> size node)")
     (auto intro: size_child size_enumerated_child)

declare convertNodeToMarkdown.simps(2) [simp del]

section \<open>The document converter\<close>

text \<open>
  \<^verbatim>\<open>JSON.parse\<close> belongs to the host language and is a parameter of the model: a function
  from the attachment's string to the exception it throws or to the value it returns,
  which the source annotates as \<^verbatim>\<open>ContentNode\<close> without a check (\<^const>\<open>None\<close> is the
  parsed value \<^verbatim>\<open>null\<close>).
\<close>

type_synonym json_parse = "string \<Rightarrow> error + ContentNode option"

text \<open>
  \<^verbatim>\<open>content.attachments.map((attachment) => ...)\<close>: the callback parses and renders one
  attachment after the other, and the first exception leaves the whole \<^verbatim>\<open>map\<close>.
\<close>

fun map_attachments :: "json_parse \<Rightarrow> Attachment list \<Rightarrow> error + string list" where
  "map_attachments JSON_parse [] = Inr []"
| "map_attachments JSON_parse (attachment # rest) =
     (case JSON_parse (attachment_content attachment) of
        Inl e \<Rightarrow> Inl e
      | Inr parsedContent \<Rightarrow>
          (case map_attachments JSON_parse rest of
             Inl e \<Rightarrow> Inl e
           | Inr outs \<Rightarrow> Inr (convertNodeToMarkdown parsedContent default_ctx # outs)))"

text \<open>
  \<^verbatim>\<open>convertDocumentToMarkdown(content)\<close>; \<^const>\<open>None\<close> is \<^verbatim>\<open>null\<close> or \<^verbatim>\<open>undefined\<close>.
  \<^verbatim>\<open>content as unknown as ContentNode\<close> reads the same object as a node.
\<close>

definition convertDocumentToMarkdown ::
    "json_parse \<Rightarrow> DocumentStructure option \<Rightarrow> error + string" where
  "convertDocumentToMarkdown JSON_parse content_opt =
     (case content_opt of
        None \<Rightarrow> Inr ''''
      | Some c \<Rightarrow>
          if ds_type c = Some ''doc'' then
            Inr (convertNodeToMarkdown
                   (Some (ContentNode ''doc'' (ds_content c) (ds_attrs c) (ds_text c)))
                   default_ctx)
          else
            (case attachments c of
               Some atts \<Rightarrow>
                 (case map_attachments JSON_parse atts of
                    Inl e \<Rightarrow> Inl e
                  | Inr outs \<Rightarrow> Inr (join '' \<newline>\<newline> '' outs))
             | None \<Rightarrow> Inr ''''))"

text \<open>
  A stand-in for \<^verbatim>\<open>JSON.parse\<close> on the strings the examples below use; it agrees with
  \<^verbatim>\<open>JSON.parse\<close> on each of them.
\<close>

definition parse_example :: json_parse where
  \<open>parse_example s =
     (if s = ''{"type":"text","text":"A"}'' then Inr (Some (ContentNode ''text'' None None (Some ''A'')))
      else if s = ''{"type":"text","text":"B"}'' then Inr (Some (ContentNode ''text'' None None (Some ''B'')))
      else if s = ''null'' then Inr None
      else Inl SyntaxError)\<close>

section \<open>Auxiliary facts\<close>

text \<open>\<^verbatim>\<open>node.content || []\<close>\<close>

definition children :: "ContentNode \<Rightarrow> ContentNode list" where
  "children node = (case content node of Some cs \<Rightarrow> cs | None \<Rightarrow> [])"

lemma join_empty_sep: "join [] xs = concat xs"
  by (induction "[] :: string" xs rule: join.induct) simp_all

lemma repeat_replicate: "repeat s n = concat (replicate n s)"
  by (induction n) simp_all

lemma foldl_push:
  "foldl (\<lambda>acc x. if p x then acc @ [f x] else acc @ [g x]) acc0 xs =
     acc0 @ map (\<lambda>x. if p x then f x else g x) xs"
  by (induction xs arbitrary: acc0) simp_all

lemma map_enumerate_upt:
  "map (\<lambda>(i, x). f i x) (enumerate k xs) = map (\<lambda>i. f (k + i) (xs ! i)) [0..<length xs]"
  by (rule nth_equalityI) (simp_all add: nth_enumerate_eq)

text \<open>
  The renderings of the children of a node, each under the context \<open>ctx\<close>, concatenated.
\<close>

definition rendered_children :: "ContentNode \<Rightarrow> ConvertContext \<Rightarrow> string" where
  "rendered_children node ctx =
     concat (map (\<lambda>n. convertNodeToMarkdown (Some n) ctx) (children node))"

lemma content_join:
  "(case content node of
      Some cs \<Rightarrow> join '''' (map (\<lambda>n. convertNodeToMarkdown (Some n) ctx) cs)
    | None \<Rightarrow> '''') = rendered_children node ctx"
  by (simp add: rendered_children_def children_def join_empty_sep split: option.split)

section \<open>Unknown node types\<close>

text \<open>
  C7. A node whose type is none of \<^verbatim>\<open>doc\<close>, \<^verbatim>\<open>paragraph\<close>, \<^verbatim>\<open>heading\<close>, \<^verbatim>\<open>bulletList\<close>,
  \<^verbatim>\<open>orderedList\<close>, \<^verbatim>\<open>listItem\<close>, \<^verbatim>\<open>text\<close>, \<^verbatim>\<open>horizontalRule\<close> renders to the empty
  string, whatever its content, attrs and text fields and whatever the context. The
  renderer returns a string on every input, so no error is raised.
\<close>

theorem unknown_type_renders_empty:
  assumes "type node \<notin> {''doc'', ''paragraph'', ''heading'', ''bulletList'', ''orderedList'',
                          ''listItem'', ''text'', ''horizontalRule''}"
  shows "convertNodeToMarkdown (Some node) ctx = ''''"
  using assms by (simp add: convertNodeToMarkdown.simps(2) Let_def)

theorem unknown_type_renders_empty_witness:
  "convertNodeToMarkdown
     (Some (ContentNode ''table''
        (Some [ContentNode ''text'' None None (Some ''cell'')])
        (Some \<lparr>level = Some 3\<rparr>) (Some ''caption'')))
     \<lparr>depth = 2, listType = Some ordered, itemIndex = Some 4\<rparr> = ''''"
  by (rule unknown_type_renders_empty) simp

section \<open>Paragraphs\<close>

text \<open>
  C4. A paragraph renders to the concatenation of its rendered children, with nothing
  added when the context has a \<^verbatim>\<open>listType\<close>, and followed by exactly two newlines when
  the context has none.
\<close>

theorem paragraph_render:
  assumes "type node = ''paragraph''"
  shows "convertNodeToMarkdown (Some node) ctx =
           (if listType ctx \<noteq> None then rendered_children node ctx
            else rendered_children node ctx @ ''\<newline>\<newline>'')"
  using assms by (simp add: convertNodeToMarkdown.simps(2) Let_def content_join)

theorem paragraph_render_witness:
  "convertNodeToMarkdown
     (Some (ContentNode ''paragraph''
        (Some [ContentNode ''text'' None None (Some ''A''),
               ContentNode ''text'' None None (Some ''B'')]) None None))
     \<lparr>depth = 0, listType = None, itemIndex = None\<rparr> = [CHR ''A'', CHR ''B'', CHR 0x0A, CHR 0x0A]
   \<and> convertNodeToMarkdown
     (Some (ContentNode ''paragraph''
        (Some [ContentNode ''text'' None None (Some ''A''),
               ContentNode ''text'' None None (Some ''B'')]) None None))
     \<lparr>depth = 0, listType = Some bullet, itemIndex = Some 0\<rparr> = ''AB''"
proof -
  let ?p = "ContentNode ''paragraph''
        (Some [ContentNode ''text'' None None (Some ''A''),
               ContentNode ''text'' None None (Some ''B'')]) None None"
  have t: "type ?p = ''paragraph''" by simp
  have kids: "\<And>ctx. rendered_children ?p ctx = ''AB''"
    by (simp add: rendered_children_def children_def convertNodeToMarkdown.simps(2))
  show ?thesis
    using paragraph_render [OF t, of "\<lparr>depth = 0, listType = None, itemIndex = None\<rparr>"]
          paragraph_render [OF t, of "\<lparr>depth = 0, listType = Some bullet, itemIndex = Some 0\<rparr>"]
    by (simp add: kids)
qed

section \<open>Lists\<close>

lemma list_items_render:
  "join '''' (map (\<lambda>(i, item). convertNodeToMarkdown (Some item)
       \<lparr>depth = d, listType = Some lt, itemIndex = Some i\<rparr>) (enumerate 0 items)) =
   concat (map (\<lambda>i. convertNodeToMarkdown (Some (items ! i))
       \<lparr>depth = d, listType = Some lt, itemIndex = Some i\<rparr>) [0..<length items])"
  by (simp add: join_empty_sep
        map_enumerate_upt [where k = 0 and f = "\<lambda>i item. convertNodeToMarkdown (Some item)
          \<lparr>depth = d, listType = Some lt, itemIndex = Some i\<rparr>", simplified])

lemma list_result:
  "(case content node of
      Some items \<Rightarrow>
        join '''' (map (\<lambda>(i, item). convertNodeToMarkdown (Some item)
            \<lparr>depth = d, listType = Some lt, itemIndex = Some i\<rparr>) (enumerate 0 items))
    | None \<Rightarrow> join '''' []) =
   concat (map (\<lambda>i. convertNodeToMarkdown (Some (children node ! i))
       \<lparr>depth = d, listType = Some lt, itemIndex = Some i\<rparr>) [0..<length (children node)])"
  by (simp add: list_items_render children_def split: option.split)

text \<open>
  C2. A \<^verbatim>\<open>bulletList\<close> (resp. \<^verbatim>\<open>orderedList\<close>) renders each child under a context with
  list type \<^verbatim>\<open>bullet\<close> (resp. \<^verbatim>\<open>ordered\<close>), the depth of the given context and the
  child's zero-based position as item index, concatenates the results, and appends one
  newline exactly when the depth of the given context is 0.
\<close>

theorem list_render:
  assumes "type node = ''bulletList'' \<and> lt = bullet \<or> type node = ''orderedList'' \<and> lt = ordered"
  shows "convertNodeToMarkdown (Some node) ctx =
           concat (map (\<lambda>i. convertNodeToMarkdown (Some (children node ! i))
                            \<lparr>depth = depth ctx, listType = Some lt, itemIndex = Some i\<rparr>)
                     [0..<length (children node)])
           @ (if depth ctx = 0 then ''\<newline>'' else '''')"
proof -
  have "convertNodeToMarkdown (Some node) ctx =
          (let result =
             concat (map (\<lambda>i. convertNodeToMarkdown (Some (children node ! i))
                            \<lparr>depth = depth ctx, listType = Some lt, itemIndex = Some i\<rparr>)
                       [0..<length (children node)])
           in if depth ctx = 0 then result @ ''\<newline>'' else result)"
    using assms
    by (subst convertNodeToMarkdown.simps(2)) (auto simp only: list_result Let_def list.inject char.inject simp_thms if_True if_False)
  then show ?thesis
    by (simp add: Let_def)
qed

theorem list_render_witness:
  "convertNodeToMarkdown
     (Some (ContentNode ''bulletList''
        (Some [ContentNode ''listItem'' (Some [ContentNode ''text'' None None (Some ''x'')]) None None,
               ContentNode ''listItem'' (Some [ContentNode ''text'' None None (Some ''y'')]) None None])
        None None))
     \<lparr>depth = 0, listType = None, itemIndex = None\<rparr> = ''- x\<newline>- y\<newline>\<newline>''
   \<and> convertNodeToMarkdown
     (Some (ContentNode ''orderedList''
        (Some [ContentNode ''listItem'' (Some [ContentNode ''text'' None None (Some ''x'')]) None None,
               ContentNode ''listItem'' (Some [ContentNode ''text'' None None (Some ''y'')]) None None])
        None None))
     \<lparr>depth = 1, listType = Some bullet, itemIndex = None\<rparr> = ''  1. x\<newline>  2. y\<newline>''"
proof -
  let ?items = "[ContentNode ''listItem'' (Some [ContentNode ''text'' None None (Some ''x'')]) None None,
                 ContentNode ''listItem'' (Some [ContentNode ''text'' None None (Some ''y'')]) None None]"
  let ?b = "ContentNode ''bulletList'' (Some ?items) None None"
  let ?o = "ContentNode ''orderedList'' (Some ?items) None None"
  have kids: "children ?b = ?items" "children ?o = ?items"
    by (simp_all add: children_def)
  have range: "[0..<length ?items] = [0, 1]"
    by (simp add: upt_rec)
  have item:
    "\<And>d lt i s. convertNodeToMarkdown
        (Some (ContentNode ''listItem'' (Some [ContentNode ''text'' None None (Some s)]) None None))
        \<lparr>depth = d, listType = Some lt, itemIndex = Some i\<rparr>
        = repeat ''  '' d @ (if lt = ordered then number_toString (i + 1) @ ''. '' else ''- '')
            @ s @ ''\<newline>''"
    by (simp add: convertNodeToMarkdown.simps(2))
  have "type ?b = ''bulletList'' \<and> bullet = bullet \<or> type ?b = ''orderedList'' \<and> bullet = ordered"
    by simp
  from list_render [OF this, of "\<lparr>depth = 0, listType = None, itemIndex = None\<rparr>"]
  have b: "convertNodeToMarkdown (Some ?b) \<lparr>depth = 0, listType = None, itemIndex = None\<rparr>
             = ''- x\<newline>- y\<newline>\<newline>''"
    unfolding kids range by (simp add: item)
  have "type ?o = ''bulletList'' \<and> ordered = bullet \<or> type ?o = ''orderedList'' \<and> ordered = ordered"
    by simp
  from list_render [OF this, of "\<lparr>depth = 1, listType = Some bullet, itemIndex = None\<rparr>"]
  have o: "convertNodeToMarkdown (Some ?o) \<lparr>depth = 1, listType = Some bullet, itemIndex = None\<rparr>
             = ''  1. x\<newline>  2. y\<newline>''"
    unfolding kids range by (simp add: item number_toString.simps digit_char_def)
  from b o show ?thesis
    by (rule conjI)
qed

text \<open>
  C10. A \<^verbatim>\<open>bulletList\<close> or \<^verbatim>\<open>orderedList\<close> whose content is absent or empty renders to a
  single newline at depth 0 and to the empty string at a greater depth, whereas a
  \<^verbatim>\<open>doc\<close> whose content is absent or empty renders to the empty string at every depth.
\<close>

theorem empty_list_render:
  assumes "content node = None \<or> content node = Some []"
  shows "(type node = ''bulletList'' \<or> type node = ''orderedList'' \<longrightarrow>
            convertNodeToMarkdown (Some node) ctx = (if depth ctx = 0 then ''\<newline>'' else ''''))
       \<and> (type node = ''doc'' \<longrightarrow> convertNodeToMarkdown (Some node) ctx = '''')"
  using assms
  by (subst (1 2) convertNodeToMarkdown.simps(2)) (auto simp add: Let_def)

theorem empty_list_render_witness:
  "convertNodeToMarkdown (Some (ContentNode ''bulletList'' None None None))
     \<lparr>depth = 0, listType = None, itemIndex = None\<rparr> = ''\<newline>''
   \<and> convertNodeToMarkdown (Some (ContentNode ''orderedList'' (Some []) None None))
     \<lparr>depth = 0, listType = None, itemIndex = None\<rparr> = ''\<newline>''
   \<and> convertNodeToMarkdown (Some (ContentNode ''orderedList'' (Some []) None None))
     \<lparr>depth = 3, listType = Some bullet, itemIndex = None\<rparr> = ''''
   \<and> convertNodeToMarkdown (Some (ContentNode ''doc'' (Some []) None None))
     \<lparr>depth = 0, listType = None, itemIndex = None\<rparr> = ''''"
  using empty_list_render [of "ContentNode ''bulletList'' None None None"
          "\<lparr>depth = 0, listType = None, itemIndex = None\<rparr>"]
        empty_list_render [of "ContentNode ''orderedList'' (Some []) None None"
          "\<lparr>depth = 0, listType = None, itemIndex = None\<rparr>"]
        empty_list_render [of "ContentNode ''orderedList'' (Some []) None None"
          "\<lparr>depth = 3, listType = Some bullet, itemIndex = None\<rparr>"]
        empty_list_render [of "ContentNode ''doc'' (Some []) None None"
          "\<lparr>depth = 0, listType = None, itemIndex = None\<rparr>"]
  by simp

section \<open>List items\<close>

text \<open>
  What a list item makes of one child: a nested \<^verbatim>\<open>bulletList\<close> or \<^verbatim>\<open>orderedList\<close> is
  rendered one level deeper under its own list type and put on a new line; any other
  child is rendered under the item's own context.
\<close>

definition nested_or_inline :: "ConvertContext \<Rightarrow> ContentNode \<Rightarrow> string" where
  "nested_or_inline ctx child =
     (if type child = ''bulletList'' then
        ''\<newline>'' @ convertNodeToMarkdown (Some child)
                   \<lparr>depth = depth ctx + 1, listType = Some bullet, itemIndex = None\<rparr>
      else if type child = ''orderedList'' then
        ''\<newline>'' @ convertNodeToMarkdown (Some child)
                   \<lparr>depth = depth ctx + 1, listType = Some ordered, itemIndex = None\<rparr>
      else convertNodeToMarkdown (Some child) ctx)"

definition item_body :: "ConvertContext \<Rightarrow> ContentNode \<Rightarrow> string" where
  "item_body ctx node = concat (map (nested_or_inline ctx) (children node))"

lemma childContent_loop:
  "join ''''
     (case content node of
        Some cs \<Rightarrow>
          foldl (\<lambda>childContent child.
              if type child = ''bulletList'' \<or> type child = ''orderedList''
              then childContent @
                [''\<newline>'' @ convertNodeToMarkdown (Some child)
                   \<lparr>depth = depth ctx + 1,
                    listType = Some (if type child = ''orderedList'' then ordered else bullet),
                    itemIndex = None\<rparr>]
              else childContent @ [convertNodeToMarkdown (Some child) ctx])
            [] cs
      | None \<Rightarrow> []) = item_body ctx node"
proof -
  have same: "(\<lambda>child. if type child = ''bulletList'' \<or> type child = ''orderedList''
                 then ''\<newline>'' @ convertNodeToMarkdown (Some child)
                   \<lparr>depth = depth ctx + 1,
                    listType = Some (if type child = ''orderedList'' then ordered else bullet),
                    itemIndex = None\<rparr>
                 else convertNodeToMarkdown (Some child) ctx) = nested_or_inline ctx"
    by (rule ext) (simp add: nested_or_inline_def)
  show ?thesis
    by (simp add: foldl_push same item_body_def children_def join_empty_sep split: option.split)
qed

lemma render_listItem:
  assumes "type node = ''listItem''"
  shows "convertNodeToMarkdown (Some node) ctx =
           repeat ''  '' (depth ctx)
           @ (if listType ctx = Some ordered
              then number_toString ((case itemIndex ctx of None \<Rightarrow> 0 | Some i \<Rightarrow> i) + 1) @ ''. ''
              else ''- '')
           @ item_body ctx node @ ''\<newline>''"
  using assms
  by (subst convertNodeToMarkdown.simps(2)) (simp add: Let_def childContent_loop)



section \<open>Numbering of ordered lists\<close>

text \<open>
  C6. In an \<^verbatim>\<open>orderedList\<close> the numeric prefix of a rendered item comes from the item's
  zero-based position in the content sequence alone: the item at position \<open>i\<close> starts
  with the indent and the decimal numeral of \<open>i + 1\<close> followed by \<^verbatim>\<open>". "\<close>, whatever
  the fields of the item are. A list of three items at top level has the prefixes
  \<^verbatim>\<open>"1. "\<close>, \<^verbatim>\<open>"2. "\<close>, \<^verbatim>\<open>"3. "\<close> in this order.
\<close>

theorem ordered_list_numbering:
  assumes "type node = ''orderedList''"
  shows "convertNodeToMarkdown (Some node) ctx =
           concat (map (\<lambda>i.
               let item = children node ! i;
                   item_ctx = \<lparr>depth = depth ctx, listType = Some ordered, itemIndex = Some i\<rparr>
               in if type item = ''listItem''
                  then repeat ''  '' (depth ctx) @ number_toString (i + 1) @ ''. ''
                       @ item_body item_ctx item @ ''\<newline>''
                  else convertNodeToMarkdown (Some item) item_ctx)
             [0..<length (children node)])
           @ (if depth ctx = 0 then ''\<newline>'' else '''')"
proof -
  have "convertNodeToMarkdown (Some node) ctx =
          (let result =
             concat (map (\<lambda>i. convertNodeToMarkdown (Some (children node ! i))
                            \<lparr>depth = depth ctx, listType = Some ordered, itemIndex = Some i\<rparr>)
                       [0..<length (children node)])
           in if depth ctx = 0 then result @ ''\<newline>'' else result)"
    using assms
    by (subst convertNodeToMarkdown.simps(2)) (simp add: list_result)
  moreover have "(\<lambda>i. convertNodeToMarkdown (Some (children node ! i))
                    \<lparr>depth = depth ctx, listType = Some ordered, itemIndex = Some i\<rparr>) =
      (\<lambda>i. let item = children node ! i;
                   item_ctx = \<lparr>depth = depth ctx, listType = Some ordered, itemIndex = Some i\<rparr>
               in if type item = ''listItem''
                  then repeat ''  '' (depth ctx) @ number_toString (i + 1) @ ''. ''
                       @ item_body item_ctx item @ ''\<newline>''
                  else convertNodeToMarkdown (Some item) item_ctx)"
    by (rule ext) (simp add: Let_def render_listItem)
  ultimately show ?thesis
    by (simp add: Let_def)
qed

theorem ordered_list_numbering_witness:
  "convertNodeToMarkdown
     (Some (ContentNode ''orderedList''
        (Some [ContentNode ''listItem'' (Some [ContentNode ''text'' None None (Some ''a'')])
                 (Some \<lparr>level = Some 7\<rparr>) (Some ''9''),
               ContentNode ''listItem'' (Some [ContentNode ''text'' None None (Some ''b'')])
                 (Some \<lparr>level = Some 7\<rparr>) (Some ''9''),
               ContentNode ''listItem'' (Some [ContentNode ''text'' None None (Some ''c'')])
                 (Some \<lparr>level = Some 7\<rparr>) (Some ''9'')])
        None None))
     \<lparr>depth = 0, listType = None, itemIndex = None\<rparr>
   = ''1. a\<newline>2. b\<newline>3. c\<newline>\<newline>''"
proof -
  let ?items = "[ContentNode ''listItem'' (Some [ContentNode ''text'' None None (Some ''a'')])
                 (Some \<lparr>level = Some 7\<rparr>) (Some ''9''),
               ContentNode ''listItem'' (Some [ContentNode ''text'' None None (Some ''b'')])
                 (Some \<lparr>level = Some 7\<rparr>) (Some ''9''),
               ContentNode ''listItem'' (Some [ContentNode ''text'' None None (Some ''c'')])
                 (Some \<lparr>level = Some 7\<rparr>) (Some ''9'')]"
  let ?l = "ContentNode ''orderedList'' (Some ?items) None None"
  have t: "type ?l = ''orderedList''"
    by simp
  have kids: "children ?l = ?items"
    by (simp add: children_def)
  have range: "[0..<length ?items] = [0, 1, 2]"
    by (simp add: upt_rec)
  have body: "\<And>c s a x. item_body c (ContentNode ''listItem''
                 (Some [ContentNode ''text'' None None (Some s)]) a x) = s"
    by (simp add: item_body_def children_def nested_or_inline_def convertNodeToMarkdown.simps(2))
  show ?thesis
    using ordered_list_numbering [OF t, of "\<lparr>depth = 0, listType = None, itemIndex = None\<rparr>"]
    unfolding kids range
    by (simp add: body number_toString.simps digit_char_def)
qed

section \<open>Headings\<close>

text \<open>
  Modelled from the spec: the data model gives \<^verbatim>\<open>level\<close> as a positive integer. A node
  satisfies it when its \<^verbatim>\<open>attrs\<close> or its \<^verbatim>\<open>level\<close> is absent, or its level is positive.
\<close>

definition level_positive :: "ContentNode \<Rightarrow> bool" where
  "level_positive node =
     (case attrs node of
        None \<Rightarrow> True
      | Some a \<Rightarrow> (case level a of None \<Rightarrow> True | Some l \<Rightarrow> 0 < l))"

text \<open>
  The number of hash marks: \<^verbatim>\<open>attrs.level\<close>, and 1 when \<^verbatim>\<open>attrs\<close> or \<^verbatim>\<open>level\<close> is absent.
\<close>

definition level_or_default :: "ContentNode \<Rightarrow> nat" where
  "level_or_default node =
     (case attrs node of
        None \<Rightarrow> 1
      | Some a \<Rightarrow> (case level a of None \<Rightarrow> 1 | Some l \<Rightarrow> l))"

text \<open>
  On a positive level \<^verbatim>\<open>node.attrs?.level || 1\<close> is the level itself.
\<close>

lemma heading_level:
  assumes "level_positive node"
  shows "(case attrs node of
            None \<Rightarrow> 1
          | Some a \<Rightarrow> (case level a of None \<Rightarrow> 1 | Some l \<Rightarrow> if l = 0 then 1 else l)) =
         level_or_default node"
  using assms by (auto simp: level_positive_def level_or_default_def split: option.splits)

text \<open>
  C5. A heading renders to \<^verbatim>\<open>attrs.level\<close> hash marks (1 when \<^verbatim>\<open>attrs\<close> or \<^verbatim>\<open>level\<close> is
  absent), a single space, the concatenation of its rendered children and exactly two
  newlines, for every heading of the data model, in which a level is positive. In
  particular a heading of level 2 with the text child \<^verbatim>\<open>Hi\<close> renders to \<^verbatim>\<open>"## Hi\n\n"\<close>.
\<close>

theorem heading_render:
  assumes "type node = ''heading''" and "level_positive node"
  shows "convertNodeToMarkdown (Some node) ctx =
           replicate (level_or_default node) CHR ''#'' @ '' '' @ rendered_children node ctx
           @ ''\<newline>\<newline>''"
  using assms(1)
  by (subst convertNodeToMarkdown.simps(2))
     (simp add: Let_def content_join heading_level [OF assms(2)] repeat_replicate)

theorem heading_render_witness:
  "convertNodeToMarkdown
     (Some (ContentNode ''heading'' (Some [ContentNode ''text'' None None (Some ''Hi'')])
        (Some \<lparr>level = Some 2\<rparr>) None))
     \<lparr>depth = 0, listType = None, itemIndex = None\<rparr> = ''## Hi\<newline>\<newline>''
   \<and> convertNodeToMarkdown
     (Some (ContentNode ''heading'' (Some [ContentNode ''text'' None None (Some ''Hi'')])
        None None))
     \<lparr>depth = 1, listType = Some bullet, itemIndex = Some 0\<rparr> = ''# Hi\<newline>\<newline>''"
proof -
  let ?h = "ContentNode ''heading'' (Some [ContentNode ''text'' None None (Some ''Hi'')])
        (Some \<lparr>level = Some 2\<rparr>) None"
  let ?g = "ContentNode ''heading'' (Some [ContentNode ''text'' None None (Some ''Hi'')])
        None None"
  have th: "type ?h = ''heading''" and tg: "type ?g = ''heading''"
    by simp_all
  have ph: "level_positive ?h" and pg: "level_positive ?g"
    by (simp_all add: level_positive_def)
  have marks_h: "replicate (level_or_default ?h) CHR ''#'' = ''##''"
    by (simp add: level_or_default_def numeral_2_eq_2)
  have marks_g: "replicate (level_or_default ?g) CHR ''#'' = ''#''"
    by (simp add: level_or_default_def)
  have kids: "\<And>ctx. rendered_children ?h ctx = ''Hi''" "\<And>ctx. rendered_children ?g ctx = ''Hi''"
    by (simp_all add: rendered_children_def children_def convertNodeToMarkdown.simps(2))
  have h: "convertNodeToMarkdown (Some ?h) \<lparr>depth = 0, listType = None, itemIndex = None\<rparr>
             = ''## Hi\<newline>\<newline>''"
    using heading_render [OF th ph, of "\<lparr>depth = 0, listType = None, itemIndex = None\<rparr>"]
    by (simp only: marks_h kids) simp
  have g: "convertNodeToMarkdown (Some ?g) \<lparr>depth = 1, listType = Some bullet, itemIndex = Some 0\<rparr>
             = ''# Hi\<newline>\<newline>''"
    using heading_render [OF tg pg, of "\<lparr>depth = 1, listType = Some bullet, itemIndex = Some 0\<rparr>"]
    by (simp only: marks_g kids) simp
  from h g show ?thesis
    by (rule conjI)
qed

section \<open>Documents\<close>

text \<open>
  C8. The document converter returns the empty string for an absent argument, and for
  an argument that neither has type \<^verbatim>\<open>doc\<close> nor has an \<^verbatim>\<open>attachments\<close> array. For an
  argument of type \<^verbatim>\<open>doc\<close> it returns what the node renderer returns for that object
  under the top-level context (depth 0, no list type, no item index), which is the empty
  string when the content is empty.
\<close>

theorem document_dispatch:
  "convertDocumentToMarkdown JSON_parse None = Inr ''''
   \<and> (ds_type c \<noteq> Some ''doc'' \<and> attachments c = None \<longrightarrow>
        convertDocumentToMarkdown JSON_parse (Some c) = Inr '''')
   \<and> (ds_type c = Some ''doc'' \<longrightarrow>
        convertDocumentToMarkdown JSON_parse (Some c) =
          Inr (convertNodeToMarkdown
                 (Some (ContentNode ''doc'' (ds_content c) (ds_attrs c) (ds_text c)))
                 \<lparr>depth = 0, listType = None, itemIndex = None\<rparr>))
   \<and> (ds_type c = Some ''doc'' \<and> ds_content c = Some [] \<longrightarrow>
        convertDocumentToMarkdown JSON_parse (Some c) = Inr '''')"
proof -
  have "convertNodeToMarkdown (Some (ContentNode ''doc'' (Some []) a t)) ctx = ''''" for a t ctx
    by (subst convertNodeToMarkdown.simps(2)) simp
  then show ?thesis
    by (simp add: convertDocumentToMarkdown_def default_ctx_def)
qed

theorem document_dispatch_witness:
  "convertDocumentToMarkdown parse_example None = Inr ''''
   \<and> convertDocumentToMarkdown parse_example
       (Some \<lparr>ds_type = Some ''paragraph'',
              ds_content = Some [ContentNode ''text'' None None (Some ''A'')],
              ds_attrs = None, ds_text = None, attachments = None\<rparr>) = Inr ''''
   \<and> convertDocumentToMarkdown parse_example
       (Some \<lparr>ds_type = Some ''doc'',
              ds_content = Some
                [ContentNode ''paragraph'' (Some [ContentNode ''text'' None None (Some ''A'')]) None None,
                 ContentNode ''paragraph'' (Some [ContentNode ''text'' None None (Some ''B'')]) None None],
              ds_attrs = None, ds_text = None, attachments = None\<rparr>)
       = Inr ''A\<newline>\<newline>B\<newline>\<newline>''
   \<and> convertDocumentToMarkdown parse_example
       (Some \<lparr>ds_type = Some ''doc'', ds_content = Some [],
              ds_attrs = None, ds_text = None, attachments = None\<rparr>) = Inr ''''"
proof -
  let ?neither = "\<lparr>ds_type = Some ''paragraph'',
              ds_content = Some [ContentNode ''text'' None None (Some ''A'')],
              ds_attrs = None, ds_text = None, attachments = None\<rparr>"
  let ?doc = "\<lparr>ds_type = Some ''doc'',
              ds_content = Some
                [ContentNode ''paragraph'' (Some [ContentNode ''text'' None None (Some ''A'')]) None None,
                 ContentNode ''paragraph'' (Some [ContentNode ''text'' None None (Some ''B'')]) None None],
              ds_attrs = None, ds_text = None, attachments = None\<rparr>"
  let ?empty = "\<lparr>ds_type = Some ''doc'', ds_content = Some [],
              ds_attrs = None, ds_text = None, attachments = None :: Attachment list option\<rparr>"
  have rendered:
    "convertNodeToMarkdown
       (Some (ContentNode ''doc'' (ds_content ?doc) (ds_attrs ?doc) (ds_text ?doc)))
       \<lparr>depth = 0, listType = None, itemIndex = None\<rparr> = ''A\<newline>\<newline>B\<newline>\<newline>''"
    by (simp add: convertNodeToMarkdown.simps(2))
  have 1: "convertDocumentToMarkdown parse_example None = Inr ''''"
    using document_dispatch [of parse_example ?empty] by (rule conjunct1)
  have 2: "convertDocumentToMarkdown parse_example (Some ?neither) = Inr ''''"
    using document_dispatch [of parse_example ?neither] by simp
  have 3: "convertDocumentToMarkdown parse_example (Some ?doc) = Inr ''A\<newline>\<newline>B\<newline>\<newline>''"
    using document_dispatch [of parse_example ?doc] by (simp only: rendered) simp
  have "ds_type ?empty = Some ''doc'' \<and> ds_content ?empty = Some []"
    by simp
  with document_dispatch [of parse_example ?empty]
  have 4: "convertDocumentToMarkdown parse_example (Some ?empty) = Inr ''''"
    by blast
  from 1 2 3 4 show ?thesis
    by (intro conjI)
qed

section \<open>Attachments\<close>

lemma map_attachments_parsed:
  assumes "\<forall>a \<in> set atts. \<exists>n. JSON_parse (attachment_content a) = Inr n"
  shows "map_attachments JSON_parse atts =
           Inr (map (\<lambda>a. convertNodeToMarkdown (projr (JSON_parse (attachment_content a)))
                         default_ctx) atts)"
  using assms by (induction atts) auto

lemma map_attachments_failure:
  assumes "\<exists>a \<in> set atts. \<exists>e. JSON_parse (attachment_content a) = Inl e"
  shows "\<exists>a \<in> set atts. \<exists>e. JSON_parse (attachment_content a) = Inl e
           \<and> map_attachments JSON_parse atts = Inl e"
  using assms
proof (induction atts)
  case Nil
  then show ?case by simp
next
  case (Cons a atts)
  show ?case
  proof (cases "JSON_parse (attachment_content a)")
    case (Inl e)
    then show ?thesis by simp
  next
    case (Inr n)
    with Cons.prems have "\<exists>b \<in> set atts. \<exists>e. JSON_parse (attachment_content b) = Inl e"
      by auto
    from Cons.IH [OF this] obtain b e where
      "b \<in> set atts" "JSON_parse (attachment_content b) = Inl e"
      "map_attachments JSON_parse atts = Inl e"
      by blast
    with Inr show ?thesis by auto
  qed
qed

text \<open>
  C3, as stated, fails on an object that has an \<^verbatim>\<open>attachments\<close> array and the type
  \<^verbatim>\<open>doc\<close>: the test for \<^verbatim>\<open>doc\<close> comes first, the attachments are never parsed, and
  the call succeeds although the content of the attachment is no JSON text.
\<close>

theorem attachments_of_doc_counterexample:
  "attachments
     \<lparr>ds_type = Some ''doc'', ds_content = None, ds_attrs = None, ds_text = None,
      attachments = Some [\<lparr>attachment_content = ''{''\<rparr>]\<rparr>
     = Some [\<lparr>attachment_content = ''{''\<rparr>]
   \<and> parse_example ''{'' = Inl SyntaxError
   \<and> convertDocumentToMarkdown parse_example
       (Some \<lparr>ds_type = Some ''doc'', ds_content = None, ds_attrs = None, ds_text = None,
              attachments = Some [\<lparr>attachment_content = ''{''\<rparr>]\<rparr>) = Inr ''''"
  by (simp add: convertDocumentToMarkdown_def parse_example_def convertNodeToMarkdown.simps(2))

text \<open>
  C3, amended. For a structure whose type is not \<^verbatim>\<open>doc\<close> and whose \<^verbatim>\<open>attachments\<close>
  field is a sequence: when the content of every attachment parses, the result is the
  renderings of the parsed values under the top-level context (depth 0, no list type, no
  item index), joined with the separator space, newline, newline, space; when the
  content of some attachment does not parse, the whole call fails with the error of such
  an attachment and returns no output.
\<close>

theorem attachments_render:
  assumes "ds_type c \<noteq> Some ''doc''" and "attachments c = Some atts"
  shows "((\<forall>a \<in> set atts. \<exists>n. JSON_parse (attachment_content a) = Inr n) \<longrightarrow>
            convertDocumentToMarkdown JSON_parse (Some c) =
              Inr (join '' \<newline>\<newline> ''
                     (map (\<lambda>a. convertNodeToMarkdown (projr (JSON_parse (attachment_content a)))
                                 \<lparr>depth = 0, listType = None, itemIndex = None\<rparr>) atts)))
       \<and> ((\<exists>a \<in> set atts. \<exists>e. JSON_parse (attachment_content a) = Inl e) \<longrightarrow>
            (\<exists>a \<in> set atts. \<exists>e. JSON_parse (attachment_content a) = Inl e
               \<and> convertDocumentToMarkdown JSON_parse (Some c) = Inl e))"
proof (intro conjI impI)
  assume "\<forall>a \<in> set atts. \<exists>n. JSON_parse (attachment_content a) = Inr n"
  from map_attachments_parsed [OF this] assms
  show "convertDocumentToMarkdown JSON_parse (Some c) =
          Inr (join '' \<newline>\<newline> ''
                 (map (\<lambda>a. convertNodeToMarkdown (projr (JSON_parse (attachment_content a)))
                             \<lparr>depth = 0, listType = None, itemIndex = None\<rparr>) atts))"
    by (simp add: convertDocumentToMarkdown_def default_ctx_def)
next
  assume "\<exists>a \<in> set atts. \<exists>e. JSON_parse (attachment_content a) = Inl e"
  from map_attachments_failure [OF this] obtain a e where
    "a \<in> set atts" "JSON_parse (attachment_content a) = Inl e"
    "map_attachments JSON_parse atts = Inl e"
    by blast
  moreover from this assms have "convertDocumentToMarkdown JSON_parse (Some c) = Inl e"
    by (simp add: convertDocumentToMarkdown_def)
  ultimately show "\<exists>a \<in> set atts. \<exists>e. JSON_parse (attachment_content a) = Inl e
      \<and> convertDocumentToMarkdown JSON_parse (Some c) = Inl e"
    by blast
qed

theorem attachments_render_witness:
  \<open>convertDocumentToMarkdown parse_example
     (Some \<lparr>ds_type = None, ds_content = None, ds_attrs = None, ds_text = None,
            attachments = Some [\<lparr>attachment_content = ''{"type":"text","text":"A"}''\<rparr>,
                                \<lparr>attachment_content = ''{"type":"text","text":"B"}''\<rparr>]\<rparr>)
     = Inr ''A \<newline>\<newline> B''
   \<and> convertDocumentToMarkdown parse_example
     (Some \<lparr>ds_type = None, ds_content = None, ds_attrs = None, ds_text = None,
            attachments = Some [\<lparr>attachment_content = ''{"type":"text","text":"A"}''\<rparr>,
                                \<lparr>attachment_content = ''{''\<rparr>,
                                \<lparr>attachment_content = ''{"type":"text","text":"B"}''\<rparr>]\<rparr>)
     = Inl SyntaxError\<close>
proof -
  let ?A = \<open>\<lparr>attachment_content = ''{"type":"text","text":"A"}''\<rparr>\<close>
  let ?B = \<open>\<lparr>attachment_content = ''{"type":"text","text":"B"}''\<rparr>\<close>
  let ?bad = "\<lparr>attachment_content = ''{''\<rparr>"
  let ?good = "\<lparr>ds_type = None, ds_content = None, ds_attrs = None, ds_text = None,
                attachments = Some [?A, ?B]\<rparr>"
  let ?broken = "\<lparr>ds_type = None, ds_content = None, ds_attrs = None, ds_text = None,
                  attachments = Some [?A, ?bad, ?B]\<rparr>"
  have pA: "parse_example (attachment_content ?A) = Inr (Some (ContentNode ''text'' None None (Some ''A'')))"
    and pB: "parse_example (attachment_content ?B) = Inr (Some (ContentNode ''text'' None None (Some ''B'')))"
    and pbad: "parse_example (attachment_content ?bad) = Inl SyntaxError"
    by (simp_all add: parse_example_def)
  have all_parse: "\<forall>a \<in> set [?A, ?B]. \<exists>n. parse_example (attachment_content a) = Inr n"
    using pA pB by simp
  have "ds_type ?good \<noteq> Some ''doc''" and "attachments ?good = Some [?A, ?B]"
    by simp_all
  from attachments_render [OF this, of parse_example] all_parse
  have "convertDocumentToMarkdown parse_example (Some ?good) =
          Inr (join '' \<newline>\<newline> ''
                 (map (\<lambda>a. convertNodeToMarkdown (projr (parse_example (attachment_content a)))
                             \<lparr>depth = 0, listType = None, itemIndex = None\<rparr>) [?A, ?B]))"
    by blast
  also have "\<dots> = Inr ''A \<newline>\<newline> B''"
    using pA pB by (simp add: convertNodeToMarkdown.simps(2))
  finally have good: "convertDocumentToMarkdown parse_example (Some ?good) = Inr ''A \<newline>\<newline> B''" .
  have some_fails: "\<exists>a \<in> set [?A, ?bad, ?B]. \<exists>e. parse_example (attachment_content a) = Inl e"
    using pbad by simp
  have "ds_type ?broken \<noteq> Some ''doc''" and "attachments ?broken = Some [?A, ?bad, ?B]"
    by simp_all
  from attachments_render [OF this, of parse_example] some_fails
  obtain e where "convertDocumentToMarkdown parse_example (Some ?broken) = Inl e"
    by blast
  then have broken: "convertDocumentToMarkdown parse_example (Some ?broken) = Inl SyntaxError"
    by (cases e) simp
  from good broken show ?thesis
    by (rule conjI)
qed

section \<open>The renderer on a store of objects\<close>

text \<open>
  Nodes and contexts are objects, and the renderer receives references to them. To speak
  about what a call does to these objects, the renderer is embedded a second time, with
  the objects in an explicit store. A node object holds its fields, and its content is
  an array of references to the child objects.
\<close>

type_synonym addr = nat

record NodeObject =
  obj_type :: string
  obj_content :: "addr list option"
  obj_attrs :: "Attrs option"
  obj_text :: "string option"

text \<open>
  The store holds the node objects by address and the context objects in the order of
  their creation; the address of a context object is its position.
\<close>

record Store =
  node_objects :: "addr \<rightharpoonup> NodeObject"
  context_objects :: "ConvertContext list"

text \<open>
  Reading a field follows the reference into the store; a reference to no object does not
  occur in the program and ends the run with \<^const>\<open>None\<close>. An object literal
  \<^verbatim>\<open>{ depth: ..., listType: ..., itemIndex: ... }\<close> creates a new context object.
\<close>

definition read_node :: "Store \<Rightarrow> addr \<Rightarrow> NodeObject option" where
  "read_node s a = node_objects s a"

definition read_context :: "Store \<Rightarrow> addr \<Rightarrow> ConvertContext option" where
  "read_context s a =
     (if a < length (context_objects s) then Some (context_objects s ! a) else None)"

definition new_context :: "ConvertContext \<Rightarrow> Store \<Rightarrow> addr \<times> Store" where
  "new_context c s =
     (length (context_objects s), s\<lparr>context_objects := context_objects s @ [c]\<rparr>)"

text \<open>
  Calling a function on the elements of an array, one after the other, on the store the
  previous call has left.
\<close>

fun map_store ::
    "('a \<Rightarrow> Store \<Rightarrow> (string \<times> Store) option) \<Rightarrow> 'a list \<Rightarrow> Store
      \<Rightarrow> (string list \<times> Store) option" where
  "map_store f [] s = Some ([], s)"
| "map_store f (x # xs) s =
     (case f x s of
        None \<Rightarrow> None
      | Some (out, s1) \<Rightarrow>
          (case map_store f xs s1 of
             None \<Rightarrow> None
           | Some (outs, s2) \<Rightarrow> Some (out # outs, s2)))"

text \<open>
  \<^verbatim>\<open>convertNodeToMarkdown(node, ctx)\<close> on references. Every read of a field of \<^verbatim>\<open>ctx\<close>
  or of a node is made on the store of the moment at which the source makes it:
  \<^verbatim>\<open>ctx.depth\<close> for the indent and \<^verbatim>\<open>ctx.listType\<close>, \<^verbatim>\<open>ctx.itemIndex\<close> for the prefix on
  entry, \<^verbatim>\<open>ctx.listType\<close> of a paragraph and \<^verbatim>\<open>ctx.depth === 0\<close> of a list after the
  children have been rendered, \<^verbatim>\<open>ctx.depth\<close> of a derived context and \<^verbatim>\<open>child.type\<close> when
  the child's turn comes. The source has no assignment to a field of a node or of a
  context, and the only objects it creates and hands to a callee are contexts; the
  arrays it builds (the results of \<^verbatim>\<open>map\<close>, \<^verbatim>\<open>childContent\<close>) stay local and are values
  here. The recursion descends along references, so it carries fuel: each call on a
  child uses one unit, and a run without fuel is \<^const>\<open>None\<close>.
\<close>

fun convertNodeToMarkdown_store ::
    "nat \<Rightarrow> addr option \<Rightarrow> addr \<Rightarrow> Store \<Rightarrow> (string \<times> Store) option" where
  "convertNodeToMarkdown_store 0 node ctx s = None"
| "convertNodeToMarkdown_store (Suc fuel) None ctx s = Some ('''', s)"
| "convertNodeToMarkdown_store (Suc fuel) (Some node) ctx s =
    (case read_context s ctx of None \<Rightarrow> None | Some c0 \<Rightarrow>
    (case read_node s node of None \<Rightarrow> None | Some n \<Rightarrow>
     let indent = repeat ''  '' (depth c0) in
     if obj_type n = ''doc'' then
       (case obj_content n of
          Some cs \<Rightarrow>
            (case map_store (\<lambda>k s'. convertNodeToMarkdown_store fuel (Some k) ctx s') cs s of
               None \<Rightarrow> None
             | Some (outs, s1) \<Rightarrow> Some (join '''' outs, s1))
        | None \<Rightarrow> Some ('''', s))
     else if obj_type n = ''paragraph'' then
       (case (case obj_content n of
                Some cs \<Rightarrow>
                  (case map_store (\<lambda>k s'. convertNodeToMarkdown_store fuel (Some k) ctx s') cs s of
                     None \<Rightarrow> None
                   | Some (outs, s1) \<Rightarrow> Some (join '''' outs, s1))
              | None \<Rightarrow> Some ('''', s)) of
          None \<Rightarrow> None
        | Some (text, s1) \<Rightarrow>
            (case read_context s1 ctx of
               None \<Rightarrow> None
             | Some c1 \<Rightarrow>
                 Some (if listType c1 \<noteq> None then text else text @ ''\<newline>\<newline>'', s1)))
     else if obj_type n = ''heading'' then
       (let level =
          (case obj_attrs n of
             None \<Rightarrow> 1
           | Some a \<Rightarrow> (case level a of None \<Rightarrow> 1 | Some l \<Rightarrow> if l = 0 then 1 else l))
        in case (case obj_content n of
                Some cs \<Rightarrow>
                  (case map_store (\<lambda>k s'. convertNodeToMarkdown_store fuel (Some k) ctx s') cs s of
                     None \<Rightarrow> None
                   | Some (outs, s1) \<Rightarrow> Some (join '''' outs, s1))
              | None \<Rightarrow> Some ('''', s)) of
          None \<Rightarrow> None
        | Some (text, s1) \<Rightarrow> Some (repeat ''#'' level @ '' '' @ text @ ''\<newline>\<newline>'', s1))
     else if obj_type n = ''bulletList'' then
       (case map_store (\<lambda>(i, item) s'.
                 case read_context s' ctx of
                   None \<Rightarrow> None
                 | Some c \<Rightarrow>
                     (case new_context \<lparr>depth = depth c, listType = Some bullet, itemIndex = Some i\<rparr> s' of
                        (item_ctx, s'') \<Rightarrow> convertNodeToMarkdown_store fuel (Some item) item_ctx s''))
               (enumerate 0 (case obj_content n of Some items \<Rightarrow> items | None \<Rightarrow> [])) s of
          None \<Rightarrow> None
        | Some (outs, s1) \<Rightarrow>
            (case read_context s1 ctx of
               None \<Rightarrow> None
             | Some c1 \<Rightarrow>
                 Some (if depth c1 = 0 then join '''' outs @ ''\<newline>'' else join '''' outs, s1)))
     else if obj_type n = ''orderedList'' then
       (case map_store (\<lambda>(i, item) s'.
                 case read_context s' ctx of
                   None \<Rightarrow> None
                 | Some c \<Rightarrow>
                     (case new_context \<lparr>depth = depth c, listType = Some ordered, itemIndex = Some i\<rparr> s' of
                        (item_ctx, s'') \<Rightarrow> convertNodeToMarkdown_store fuel (Some item) item_ctx s''))
               (enumerate 0 (case obj_content n of Some items \<Rightarrow> items | None \<Rightarrow> [])) s of
          None \<Rightarrow> None
        | Some (outs, s1) \<Rightarrow>
            (case read_context s1 ctx of
               None \<Rightarrow> None
             | Some c1 \<Rightarrow>
                 Some (if depth c1 = 0 then join '''' outs @ ''\<newline>'' else join '''' outs, s1)))
     else if obj_type n = ''listItem'' then
       (let prefix =
          (if listType c0 = Some ordered
           then number_toString ((case itemIndex c0 of None \<Rightarrow> 0 | Some i \<Rightarrow> i) + 1) @ ''. ''
           else ''- '')
        in case map_store (\<lambda>child s'.
                 case read_node s' child of
                   None \<Rightarrow> None
                 | Some ch \<Rightarrow>
                     if obj_type ch = ''bulletList'' \<or> obj_type ch = ''orderedList'' then
                       (case read_context s' ctx of
                          None \<Rightarrow> None
                        | Some c \<Rightarrow>
                            (case new_context
                                 \<lparr>depth = depth c + 1,
                                  listType = Some (if obj_type ch = ''orderedList'' then ordered else bullet),
                                  itemIndex = None\<rparr> s' of
                               (list_ctx, s'') \<Rightarrow>
                                 (case convertNodeToMarkdown_store fuel (Some child) list_ctx s'' of
                                    None \<Rightarrow> None
                                  | Some (out, s3) \<Rightarrow> Some (''\<newline>'' @ out, s3))))
                     else convertNodeToMarkdown_store fuel (Some child) ctx s')
               (case obj_content n of Some cs \<Rightarrow> cs | None \<Rightarrow> []) s of
          None \<Rightarrow> None
        | Some (childContent, s1) \<Rightarrow> Some (indent @ prefix @ join '''' childContent @ ''\<newline>'', s1))
     else if obj_type n = ''text'' then
       Some (case obj_text n of Some t \<Rightarrow> t | None \<Rightarrow> '''', s)
     else if obj_type n = ''horizontalRule'' then Some (''---\<newline>\<newline>'', s)
     else Some ('''', s)))"

text \<open>
  The store holds the tree \<open>t\<close> at the address \<open>a\<close>.
\<close>

declare list.rel_cong [fundef_cong]

fun represents :: "(addr \<rightharpoonup> NodeObject) \<Rightarrow> addr \<Rightarrow> ContentNode \<Rightarrow> bool" where
  "represents ns a (ContentNode ty c at tx) =
     (case ns a of
        None \<Rightarrow> False
      | Some obj \<Rightarrow>
          obj_type obj = ty \<and> obj_attrs obj = at \<and> obj_text obj = tx \<and>
          (case c of
             None \<Rightarrow> obj_content obj = None
           | Some ts \<Rightarrow>
               (case obj_content obj of
                  None \<Rightarrow> False
                | Some as \<Rightarrow> list_all2 (represents ns) as ts)))"

text \<open>
  A later store extends an earlier one when it has the same node objects and the same
  context objects at the addresses of the earlier one, and possibly new contexts.
\<close>

definition store_extends :: "Store \<Rightarrow> Store \<Rightarrow> bool" where
  "store_extends s s' \<longleftrightarrow>
     node_objects s' = node_objects s \<and> prefix (context_objects s) (context_objects s')"

lemma store_extends_refl: "store_extends s s"
  by (simp add: store_extends_def)

lemma store_extends_trans:
  "store_extends s1 s2 \<Longrightarrow> store_extends s2 s3 \<Longrightarrow> store_extends s1 s3"
  by (auto simp: store_extends_def)

lemma read_context_extends:
  "store_extends s s' \<Longrightarrow> read_context s ctx = Some c \<Longrightarrow> read_context s' ctx = Some c"
  by (auto simp: store_extends_def read_context_def prefix_def nth_append split: if_splits)

lemma new_context_extends:
  "new_context c s = (a, s') \<Longrightarrow> store_extends s s' \<and> read_context s' a = Some c"
  by (auto simp: new_context_def store_extends_def read_context_def)

lemma represents_object:
  assumes "represents ns a t"
  obtains obj where "ns a = Some obj" "obj_type obj = type t" "obj_attrs obj = attrs t"
    "obj_text obj = text_field t"
    "list_all2 (represents ns) (case obj_content obj of Some as \<Rightarrow> as | None \<Rightarrow> []) (children t)"
    "obj_content obj = None \<longleftrightarrow> content t = None"
  using assms
  by (cases t) (auto simp: children_def split: option.splits)

text \<open>
  With fuel for the size of the tree, the run on the store returns what the renderer on
  values returns, and leaves an extension of the store.
\<close>

definition renders_ok :: "nat \<Rightarrow> bool" where
  "renders_ok fuel \<longleftrightarrow>
     (\<forall>a t ctx c s. represents (node_objects s) a t \<longrightarrow> read_context s ctx = Some c \<longrightarrow>
        size t \<le> fuel \<longrightarrow>
        (\<exists>s'. convertNodeToMarkdown_store fuel (Some a) ctx s =
                 Some (convertNodeToMarkdown (Some t) c, s') \<and> store_extends s s'))"

lemma map_store_pure:
  assumes "list_all2 R xs ys"
    and "\<And>x y s1. R x y \<Longrightarrow> y \<in> set ys \<Longrightarrow> store_extends s0 s1 \<Longrightarrow>
           \<exists>s2. f x s1 = Some (g y, s2) \<and> store_extends s1 s2"
    and "store_extends s0 s"
  shows "\<exists>s'. map_store f xs s = Some (map g ys, s') \<and> store_extends s s'"
  using assms
proof (induction xs ys arbitrary: s rule: list_all2_induct)
  case Nil
  then show ?case by (simp add: store_extends_refl)
next
  case (Cons x xs y ys)
  from Cons.prems(1) [OF Cons.hyps(1) _ Cons.prems(2)]
  obtain s2 where s2: "f x s = Some (g y, s2)" "store_extends s s2"
    by auto
  have ext: "store_extends s0 s2"
    using Cons.prems(2) s2(2) by (rule store_extends_trans)
  have "\<exists>s'. map_store f xs s2 = Some (map g ys, s') \<and> store_extends s2 s'"
  proof (rule Cons.IH [OF _ ext])
    fix x' y' s1
    assume "R x' y'" "y' \<in> set ys" "store_extends s0 s1"
    then show "\<exists>s2. f x' s1 = Some (g y', s2) \<and> store_extends s1 s2"
      using Cons.prems(1) by simp
  qed
  then obtain s' where "map_store f xs s2 = Some (map g ys, s')" "store_extends s2 s'"
    by blast
  with s2 show ?case
    by (auto intro: store_extends_trans)
qed

lemma children_store:
  assumes ok: "renders_ok fuel"
    and rel: "list_all2 (represents (node_objects s)) as ts"
    and sz: "\<And>t. t \<in> set ts \<Longrightarrow> size t \<le> fuel"
    and ctx: "read_context s ctx = Some c"
  shows "\<exists>s'. map_store (\<lambda>k s'. convertNodeToMarkdown_store fuel (Some k) ctx s') as s =
                 Some (map (\<lambda>t. convertNodeToMarkdown (Some t) c) ts, s')
               \<and> store_extends s s'"
proof (rule map_store_pure [OF rel _ store_extends_refl])
  fix x y s1
  assume "represents (node_objects s) x y" "y \<in> set ts" "store_extends s s1"
  then have "represents (node_objects s1) x y" "read_context s1 ctx = Some c" "size y \<le> fuel"
    using ctx sz by (auto simp: store_extends_def intro: read_context_extends [unfolded store_extends_def])
  with ok show "\<exists>s2. convertNodeToMarkdown_store fuel (Some x) ctx s1 =
                  Some (convertNodeToMarkdown (Some y) c, s2) \<and> store_extends s1 s2"
    unfolding renders_ok_def by blast
qed

lemma enumerate_rel:
  "list_all2 R xs ys \<Longrightarrow>
   list_all2 (\<lambda>(i, x) (j, y). i = j \<and> R x y) (enumerate k xs) (enumerate k ys)"
  by (induction xs ys arbitrary: k rule: list_all2_induct) simp_all

lemma items_store:
  assumes ok: "renders_ok fuel"
    and rel: "list_all2 (represents (node_objects s)) as ts"
    and sz: "\<And>t. t \<in> set ts \<Longrightarrow> size t \<le> fuel"
    and ctx: "read_context s ctx = Some c"
  shows "\<exists>s'. map_store (\<lambda>(i, item) s'.
                 case read_context s' ctx of
                   None \<Rightarrow> None
                 | Some c \<Rightarrow>
                     (case new_context \<lparr>depth = depth c, listType = Some lt, itemIndex = Some i\<rparr> s' of
                        (item_ctx, s'') \<Rightarrow> convertNodeToMarkdown_store fuel (Some item) item_ctx s''))
               (enumerate 0 as) s =
             Some (map (\<lambda>(i, item). convertNodeToMarkdown (Some item)
                          \<lparr>depth = depth c, listType = Some lt, itemIndex = Some i\<rparr>)
                     (enumerate 0 ts), s')
           \<and> store_extends s s'"
proof (rule map_store_pure [OF enumerate_rel [OF rel] _ store_extends_refl])
  fix x :: "nat \<times> addr" and y :: "nat \<times> ContentNode" and s1
  assume R: "(case x of (i, a) \<Rightarrow> \<lambda>(j, t). i = j \<and> represents (node_objects s) a t) y"
    and mem: "y \<in> set (enumerate 0 ts)" and ext: "store_extends s s1"
  obtain i a where x: "x = (i, a)" by (cases x)
  obtain j t where y: "y = (j, t)" by (cases y)
  from R x y have ij: "j = i" and rep: "represents (node_objects s) a t"
    by simp_all
  from mem y have "t \<in> set ts"
    by (auto simp: in_set_enumerate_eq)
  then have size: "size t \<le> fuel"
    by (rule sz)
  let ?c = "\<lparr>depth = depth c, listType = Some lt, itemIndex = Some i\<rparr>"
  obtain item_ctx s1' where new: "new_context ?c s1 = (item_ctx, s1')"
    by (cases "new_context ?c s1")
  from new_context_extends [OF new] have ext': "store_extends s1 s1'"
    and rd: "read_context s1' item_ctx = Some ?c"
    by simp_all
  from rep ext ext' have "represents (node_objects s1') a t"
    by (simp add: store_extends_def)
  with ok rd size obtain s2 where
    run: "convertNodeToMarkdown_store fuel (Some a) item_ctx s1' =
            Some (convertNodeToMarkdown (Some t) ?c, s2)"
    and ext2: "store_extends s1' s2"
    unfolding renders_ok_def by blast
  have "read_context s1 ctx = Some c"
    using ext ctx by (rule read_context_extends)
  with new run x y ij ext' ext2
  show "\<exists>s2. (\<lambda>(i, item) s'.
                 case read_context s' ctx of
                   None \<Rightarrow> None
                 | Some c \<Rightarrow>
                     (case new_context \<lparr>depth = depth c, listType = Some lt, itemIndex = Some i\<rparr> s' of
                        (item_ctx, s'') \<Rightarrow> convertNodeToMarkdown_store fuel (Some item) item_ctx s'')) x s1 =
              Some ((\<lambda>(i, item). convertNodeToMarkdown (Some item)
                          \<lparr>depth = depth c, listType = Some lt, itemIndex = Some i\<rparr>) y, s2)
            \<and> store_extends s1 s2"
    by (auto intro: store_extends_trans)
qed

lemma loop_store:
  assumes ok: "renders_ok fuel"
    and rel: "list_all2 (represents (node_objects s)) as ts"
    and sz: "\<And>t. t \<in> set ts \<Longrightarrow> size t \<le> fuel"
    and ctx: "read_context s ctx = Some c"
  shows "\<exists>s'. map_store (\<lambda>child s'.
                 case read_node s' child of
                   None \<Rightarrow> None
                 | Some ch \<Rightarrow>
                     if obj_type ch = ''bulletList'' \<or> obj_type ch = ''orderedList'' then
                       (case read_context s' ctx of
                          None \<Rightarrow> None
                        | Some c \<Rightarrow>
                            (case new_context
                                 \<lparr>depth = depth c + 1,
                                  listType = Some (if obj_type ch = ''orderedList'' then ordered else bullet),
                                  itemIndex = None\<rparr> s' of
                               (list_ctx, s'') \<Rightarrow>
                                 (case convertNodeToMarkdown_store fuel (Some child) list_ctx s'' of
                                    None \<Rightarrow> None
                                  | Some (out, s3) \<Rightarrow> Some (''\<newline>'' @ out, s3))))
                     else convertNodeToMarkdown_store fuel (Some child) ctx s')
               as s =
             Some (map (nested_or_inline c) ts, s')
           \<and> store_extends s s'"
proof (rule map_store_pure [OF rel _ store_extends_refl])
  fix a t s1
  assume rep: "represents (node_objects s) a t" and mem: "t \<in> set ts"
    and ext: "store_extends s s1"
  from mem have size: "size t \<le> fuel"
    by (rule sz)
  from rep ext have rep1: "represents (node_objects s1) a t"
    by (simp add: store_extends_def)
  then obtain ch where ch: "read_node s1 a = Some ch" "obj_type ch = type t"
    by (auto elim: represents_object simp: read_node_def)
  have rd1: "read_context s1 ctx = Some c"
    using ext ctx by (rule read_context_extends)
  show "\<exists>s2. (case read_node s1 a of
                   None \<Rightarrow> None
                 | Some ch \<Rightarrow>
                     if obj_type ch = ''bulletList'' \<or> obj_type ch = ''orderedList'' then
                       (case read_context s1 ctx of
                          None \<Rightarrow> None
                        | Some c \<Rightarrow>
                            (case new_context
                                 \<lparr>depth = depth c + 1,
                                  listType = Some (if obj_type ch = ''orderedList'' then ordered else bullet),
                                  itemIndex = None\<rparr> s1 of
                               (list_ctx, s'') \<Rightarrow>
                                 (case convertNodeToMarkdown_store fuel (Some a) list_ctx s'' of
                                    None \<Rightarrow> None
                                  | Some (out, s3) \<Rightarrow> Some (''\<newline>'' @ out, s3))))
                     else convertNodeToMarkdown_store fuel (Some a) ctx s1) =
              Some (nested_or_inline c t, s2)
            \<and> store_extends s1 s2"
  proof (cases "type t = ''bulletList'' \<or> type t = ''orderedList''")
    case False
    from ok rep1 rd1 size obtain s2 where
      "convertNodeToMarkdown_store fuel (Some a) ctx s1 = Some (convertNodeToMarkdown (Some t) c, s2)"
      "store_extends s1 s2"
      unfolding renders_ok_def by blast
    with False ch show ?thesis
      by (auto simp: nested_or_inline_def)
  next
    case True
    let ?c = "\<lparr>depth = depth c + 1,
               listType = Some (if type t = ''orderedList'' then ordered else bullet),
               itemIndex = None\<rparr>"
    obtain list_ctx s1' where new: "new_context ?c s1 = (list_ctx, s1')"
      by (cases "new_context ?c s1")
    from new_context_extends [OF new] have ext': "store_extends s1 s1'"
      and rd: "read_context s1' list_ctx = Some ?c"
      by simp_all
    from rep1 ext' have "represents (node_objects s1') a t"
      by (simp add: store_extends_def)
    with ok rd size obtain s2 where
      run: "convertNodeToMarkdown_store fuel (Some a) list_ctx s1' =
              Some (convertNodeToMarkdown (Some t) ?c, s2)"
      and ext2: "store_extends s1' s2"
      unfolding renders_ok_def by blast
    from ext' ext2 have "store_extends s1 s2"
      by (rule store_extends_trans)
    with True ch rd1 new run show ?thesis
      by (auto simp: nested_or_inline_def)
  qed
qed

lemma render_cases:
  "convertNodeToMarkdown (Some t) c =
     (if type t = ''doc'' then rendered_children t c
      else if type t = ''paragraph'' then
        (if listType c \<noteq> None then rendered_children t c
         else rendered_children t c @ ''\<newline>\<newline>'')
      else if type t = ''heading'' then
        repeat ''#''
          (case attrs t of
             None \<Rightarrow> 1
           | Some a \<Rightarrow> (case level a of None \<Rightarrow> 1 | Some l \<Rightarrow> if l = 0 then 1 else l))
        @ '' '' @ rendered_children t c @ ''\<newline>\<newline>''
      else if type t = ''bulletList'' then
        join '''' (map (\<lambda>(i, item). convertNodeToMarkdown (Some item)
                     \<lparr>depth = depth c, listType = Some bullet, itemIndex = Some i\<rparr>)
                   (enumerate 0 (children t)))
        @ (if depth c = 0 then ''\<newline>'' else '''')
      else if type t = ''orderedList'' then
        join '''' (map (\<lambda>(i, item). convertNodeToMarkdown (Some item)
                     \<lparr>depth = depth c, listType = Some ordered, itemIndex = Some i\<rparr>)
                   (enumerate 0 (children t)))
        @ (if depth c = 0 then ''\<newline>'' else '''')
      else if type t = ''listItem'' then
        repeat ''  '' (depth c)
        @ (if listType c = Some ordered
           then number_toString ((case itemIndex c of None \<Rightarrow> 0 | Some i \<Rightarrow> i) + 1) @ ''. ''
           else ''- '')
        @ item_body c t @ ''\<newline>''
      else if type t = ''text'' then (case text_field t of Some x \<Rightarrow> x | None \<Rightarrow> '''')
      else if type t = ''horizontalRule'' then ''---\<newline>\<newline>''
      else '''')"
  by (subst convertNodeToMarkdown.simps(2))
     (simp add: Let_def content_join childContent_loop children_def split: option.split)

lemma renders_ok_Suc:
  assumes ok: "renders_ok fuel"
  shows "renders_ok (Suc fuel)"
  unfolding renders_ok_def
proof (intro allI impI)
  fix a t ctx c s
  assume rep: "represents (node_objects s) a t"
    and rd: "read_context s ctx = Some c"
    and size: "size t \<le> Suc fuel"
  from rep obtain obj where obj: "read_node s a = Some obj" "obj_type obj = type t"
      "obj_attrs obj = attrs t" "obj_text obj = text_field t"
    and rel: "list_all2 (represents (node_objects s))
                (case obj_content obj of Some as \<Rightarrow> as | None \<Rightarrow> []) (children t)"
    and none: "obj_content obj = None \<longleftrightarrow> content t = None"
    by (auto elim: represents_object simp: read_node_def)
  have sz: "size t' \<le> fuel" if "t' \<in> set (children t)" for t'
  proof -
    from that obtain cs where "content t = Some cs" "t' \<in> set cs"
      by (cases "content t") (simp_all add: children_def)
    then have "size t' < size t"
      by (rule size_child)
    with size show ?thesis
      by simp
  qed
  from children_store [OF ok rel sz rd] obtain sA where
    A: "map_store (\<lambda>k s'. convertNodeToMarkdown_store fuel (Some k) ctx s')
          (case obj_content obj of Some as \<Rightarrow> as | None \<Rightarrow> []) s =
        Some (map (\<lambda>t. convertNodeToMarkdown (Some t) c) (children t), sA)"
    and extA: "store_extends s sA"
    by blast
  from items_store [OF ok rel sz rd, of bullet] obtain sB where
    B: "map_store (\<lambda>(i, item) s'.
                 case read_context s' ctx of
                   None \<Rightarrow> None
                 | Some c \<Rightarrow>
                     (case new_context \<lparr>depth = depth c, listType = Some bullet, itemIndex = Some i\<rparr> s' of
                        (item_ctx, s'') \<Rightarrow> convertNodeToMarkdown_store fuel (Some item) item_ctx s''))
               (enumerate 0 (case obj_content obj of Some as \<Rightarrow> as | None \<Rightarrow> [])) s =
             Some (map (\<lambda>(i, item). convertNodeToMarkdown (Some item)
                          \<lparr>depth = depth c, listType = Some bullet, itemIndex = Some i\<rparr>)
                     (enumerate 0 (children t)), sB)"
    and extB: "store_extends s sB"
    by blast
  from items_store [OF ok rel sz rd, of ordered] obtain sO where
    O: "map_store (\<lambda>(i, item) s'.
                 case read_context s' ctx of
                   None \<Rightarrow> None
                 | Some c \<Rightarrow>
                     (case new_context \<lparr>depth = depth c, listType = Some ordered, itemIndex = Some i\<rparr> s' of
                        (item_ctx, s'') \<Rightarrow> convertNodeToMarkdown_store fuel (Some item) item_ctx s''))
               (enumerate 0 (case obj_content obj of Some as \<Rightarrow> as | None \<Rightarrow> [])) s =
             Some (map (\<lambda>(i, item). convertNodeToMarkdown (Some item)
                          \<lparr>depth = depth c, listType = Some ordered, itemIndex = Some i\<rparr>)
                     (enumerate 0 (children t)), sO)"
    and extO: "store_extends s sO"
    by blast
  from loop_store [OF ok rel sz rd] obtain sL where
    L: "map_store (\<lambda>child s'.
                 case read_node s' child of
                   None \<Rightarrow> None
                 | Some ch \<Rightarrow>
                     if obj_type ch = ''bulletList'' \<or> obj_type ch = ''orderedList'' then
                       (case read_context s' ctx of
                          None \<Rightarrow> None
                        | Some c \<Rightarrow>
                            (case new_context
                                 \<lparr>depth = depth c + 1,
                                  listType = Some (if obj_type ch = ''orderedList'' then ordered else bullet),
                                  itemIndex = None\<rparr> s' of
                               (list_ctx, s'') \<Rightarrow>
                                 (case convertNodeToMarkdown_store fuel (Some child) list_ctx s'' of
                                    None \<Rightarrow> None
                                  | Some (out, s3) \<Rightarrow> Some (''\<newline>'' @ out, s3))))
                     else convertNodeToMarkdown_store fuel (Some child) ctx s')
               (case obj_content obj of Some as \<Rightarrow> as | None \<Rightarrow> []) s =
             Some (map (nested_or_inline c) (children t), sL)"
    and extL: "store_extends s sL"
    by blast
  note rds = read_context_extends [OF extA rd] read_context_extends [OF extB rd]
    read_context_extends [OF extO rd]
  have empty: "children t = []" if "content t = None"
    using that by (simp add: children_def)
  show "\<exists>s'. convertNodeToMarkdown_store (Suc fuel) (Some a) ctx s =
               Some (convertNodeToMarkdown (Some t) c, s') \<and> store_extends s s'"
    using obj none A B O L extA extB extO extL rds rd
    by (auto simp add: render_cases [of t c] Let_def rendered_children_def item_body_def
          join_empty_sep store_extends_refl empty
          split: option.splits)
qed

lemma renders_ok_all: "renders_ok fuel"
proof (induction fuel)
  case 0
  have "0 < size t" for t :: ContentNode
    by (cases t) simp
  then show ?case
    by (simp add: renders_ok_def)
next
  case (Suc fuel)
  then show ?case
    by (rule renders_ok_Suc)
qed

text \<open>
  Two stores for an example: both hold the tree of a bullet list with one item, at
  different addresses, and a top-level context, at different addresses.
\<close>

definition example_tree :: ContentNode where
  "example_tree =
     ContentNode ''bulletList''
       (Some [ContentNode ''listItem'' (Some [ContentNode ''text'' None None (Some ''x'')])
                None None])
       None None"

definition example_store :: Store where
  "example_store =
     \<lparr>node_objects =
        [0 \<mapsto> \<lparr>obj_type = ''bulletList'', obj_content = Some [1], obj_attrs = None, obj_text = None\<rparr>,
         1 \<mapsto> \<lparr>obj_type = ''listItem'', obj_content = Some [2], obj_attrs = None, obj_text = None\<rparr>,
         2 \<mapsto> \<lparr>obj_type = ''text'', obj_content = None, obj_attrs = None, obj_text = Some ''x''\<rparr>],
      context_objects = [\<lparr>depth = 0, listType = None, itemIndex = None\<rparr>]\<rparr>"

definition example_store' :: Store where
  "example_store' =
     \<lparr>node_objects =
        [7 \<mapsto> \<lparr>obj_type = ''bulletList'', obj_content = Some [9], obj_attrs = None, obj_text = None\<rparr>,
         8 \<mapsto> \<lparr>obj_type = ''text'', obj_content = None, obj_attrs = None, obj_text = Some ''x''\<rparr>,
         9 \<mapsto> \<lparr>obj_type = ''listItem'', obj_content = Some [8], obj_attrs = None, obj_text = None\<rparr>],
      context_objects = [\<lparr>depth = 3, listType = Some ordered, itemIndex = Some 5\<rparr>,
                         \<lparr>depth = 0, listType = None, itemIndex = None\<rparr>]\<rparr>"

text \<open>
  C9. The renderer is pure and deterministic. Two calls, on any two stores that hold
  the same tree and the same context value (at any addresses, and with fuel for the
  size of the tree), return the same string, which is the value of the renderer on that
  tree and context. Neither call changes a node object, and neither changes a context
  object that exists before the call: the store after the call has the same node
  objects and the earlier contexts unchanged, so the context given to the call has its
  value afterwards, and every child of a node is rendered from the same value of the
  parent's context.
\<close>

theorem renderer_pure:
  assumes "represents (node_objects s1) a1 t" and "represents (node_objects s2) a2 t"
    and "read_context s1 ctx1 = Some c" and "read_context s2 ctx2 = Some c"
    and "size t \<le> fuel1" and "size t \<le> fuel2"
  shows "\<exists>out s1' s2'.
           convertNodeToMarkdown_store fuel1 (Some a1) ctx1 s1 = Some (out, s1')
         \<and> convertNodeToMarkdown_store fuel2 (Some a2) ctx2 s2 = Some (out, s2')
         \<and> out = convertNodeToMarkdown (Some t) c
         \<and> node_objects s1' = node_objects s1 \<and> node_objects s2' = node_objects s2
         \<and> prefix (context_objects s1) (context_objects s1')
         \<and> prefix (context_objects s2) (context_objects s2')
         \<and> read_context s1' ctx1 = Some c \<and> read_context s2' ctx2 = Some c"
proof -
  from renders_ok_all [of fuel1] assms(1,3,5) obtain s1' where
    1: "convertNodeToMarkdown_store fuel1 (Some a1) ctx1 s1 =
          Some (convertNodeToMarkdown (Some t) c, s1')" "store_extends s1 s1'"
    unfolding renders_ok_def by blast
  from renders_ok_all [of fuel2] assms(2,4,6) obtain s2' where
    2: "convertNodeToMarkdown_store fuel2 (Some a2) ctx2 s2 =
          Some (convertNodeToMarkdown (Some t) c, s2')" "store_extends s2 s2'"
    unfolding renders_ok_def by blast
  from 1(2) assms(3) have "read_context s1' ctx1 = Some c"
    by (rule read_context_extends)
  moreover from 2(2) assms(4) have "read_context s2' ctx2 = Some c"
    by (rule read_context_extends)
  ultimately show ?thesis
    using 1 2 by (auto simp: store_extends_def)
qed

theorem renderer_pure_witness:
  "\<exists>s1' s2'.
     convertNodeToMarkdown_store 8 (Some 0) 0 example_store = Some (''- x\<newline>\<newline>'', s1')
   \<and> convertNodeToMarkdown_store 12 (Some 7) 1 example_store' = Some (''- x\<newline>\<newline>'', s2')
   \<and> node_objects s1' = node_objects example_store
   \<and> node_objects s2' = node_objects example_store'
   \<and> prefix (context_objects example_store) (context_objects s1')
   \<and> prefix (context_objects example_store') (context_objects s2')"
proof -
  let ?c = "\<lparr>depth = 0, listType = None, itemIndex = None\<rparr>"
  have 1: "represents (node_objects example_store) 0 example_tree"
    and 2: "represents (node_objects example_store') 7 example_tree"
    by (simp_all add: example_store_def example_store'_def example_tree_def)
  have 3: "read_context example_store 0 = Some ?c"
    and 4: "read_context example_store' 1 = Some ?c"
    by (simp_all add: example_store_def example_store'_def read_context_def)
  have 5: "size example_tree \<le> 8" and 6: "size example_tree \<le> 12"
    by (simp_all add: example_tree_def)
  have out: "convertNodeToMarkdown (Some example_tree) ?c = ''- x\<newline>\<newline>''"
    by (simp add: example_tree_def convertNodeToMarkdown.simps(2))
  from renderer_pure [OF 1 2 3 4 5 6] show ?thesis
    unfolding out by blast
qed

end
